theory Spec2Isabelle
  imports Main
begin

section \<open>Strings of the Python runtime\<close>

text \<open>
  The program is \<^verbatim>\<open>scripts/inventory/reachability_checks/conn_check.py\<close>. Its
  strings are modelled as \<^typ>\<open>string\<close> and its text is taken to be ASCII, which is
  what a switch prints for \<^verbatim>\<open>show interface status\<close>: the character classes below
  are the ASCII part of Python's \<^verbatim>\<open>str.isspace\<close>, of the regular expression classes
  \<^verbatim>\<open>\s\<close>, \<^verbatim>\<open>\d\<close>, \<^verbatim>\<open>\w\<close>, and of \<^verbatim>\<open>str.lower\<close>.
\<close>

definition is_space :: "char \<Rightarrow> bool" where
  "is_space c = (c \<in> set [CHR 0x09, CHR 0x0A, CHR 0x0B, CHR 0x0C, CHR 0x0D,
                            CHR 0x1C, CHR 0x1D, CHR 0x1E, CHR 0x1F, CHR 0x20])"

definition is_digit :: "char \<Rightarrow> bool" where
  "is_digit c = (c \<in> set ''0123456789'')"

definition is_word :: "char \<Rightarrow> bool" where
  "is_word c = (c \<in> set ''abcdefghijklmnopqrstuvwxyzABCDEFGHIJKLMNOPQRSTUVWXYZ0123456789_'')"

definition lower_char :: "char \<Rightarrow> char" where
  "lower_char c =
     (case map_of (zip ''ABCDEFGHIJKLMNOPQRSTUVWXYZ'' ''abcdefghijklmnopqrstuvwxyz'') c of
        Some d \<Rightarrow> d
      | None \<Rightarrow> c)"

text \<open>\<^verbatim>\<open>s.lower()\<close>, \<^verbatim>\<open>s.lstrip()\<close>, \<^verbatim>\<open>s.strip()\<close>.\<close>

definition lower :: "string \<Rightarrow> string" where
  "lower s = map lower_char s"

definition lstrip :: "string \<Rightarrow> string" where
  "lstrip s = dropWhile is_space s"

definition strip :: "string \<Rightarrow> string" where
  "strip s = rev (dropWhile is_space (rev (dropWhile is_space s)))"

text \<open>
  \<^verbatim>\<open>s.split(sep)\<close> for a one-character separator: every separator ends a piece, so
  the empty string gives one empty piece. The second argument is the piece being read,
  reversed.
\<close>

fun split_char :: "char \<Rightarrow> string \<Rightarrow> string \<Rightarrow> string list" where
  "split_char sep cur [] = [rev cur]"
| "split_char sep cur (c # cs) =
     (if c = sep then rev cur # split_char sep [] cs else split_char sep (c # cur) cs)"

text \<open>\<^verbatim>\<open>s.split()\<close>: the maximal runs of non-whitespace characters, none of them empty.\<close>

fun split_ws_from :: "string \<Rightarrow> string \<Rightarrow> string list" where
  "split_ws_from cur [] = (if cur = [] then [] else [rev cur])"
| "split_ws_from cur (c # cs) =
     (if is_space c then (if cur = [] then split_ws_from [] cs else rev cur # split_ws_from [] cs)
      else split_ws_from (c # cur) cs)"

definition split_ws :: "string \<Rightarrow> string list" where
  "split_ws s = split_ws_from [] s"

text \<open>
  \<^verbatim>\<open>re.split(r'\s{2,}', s)\<close>: a maximal run of two or more whitespace characters is a
  separator, a single whitespace character stays in its piece, and a separator at the
  end leaves an empty last piece. The flag says that the scan is inside a separator.
\<close>

fun re_split_gaps :: "bool \<Rightarrow> string \<Rightarrow> string \<Rightarrow> string list" where
  "re_split_gaps inside cur [] = [rev cur]"
| "re_split_gaps inside cur (c # cs) =
     (if inside \<and> is_space c then re_split_gaps True cur cs
      else if is_space c \<and> (case cs of [] \<Rightarrow> False | d # _ \<Rightarrow> is_space d)
           then rev cur # re_split_gaps True [] cs
      else re_split_gaps False (c # cur) cs)"

text \<open>
  \<^verbatim>\<open>s.replace(old, new)\<close> for a non-empty \<open>old\<close>: the occurrences are replaced from
  the left and do not overlap. (The program calls it with \<open>old = 'Ethernet'\<close> only; for
  an empty \<open>old\<close> the model returns \<open>s\<close>, which is not what Python does.)
\<close>

fun replace :: "string \<Rightarrow> string \<Rightarrow> string \<Rightarrow> string" where
  "replace old new [] = []"
| "replace old new (c # cs) =
     (if old \<noteq> [] \<and> take (length old) (c # cs) = old
      then new @ replace old new (drop (length old) (c # cs))
      else c # replace old new cs)"

section \<open>The regular expressions of the status parser\<close>

text \<open>
  \<^verbatim>\<open>\b\<close> holds between two positions when exactly one of the neighbouring characters
  is a word character; the start and the end of the text count as non-word.
\<close>

definition word_boundary :: "char option \<Rightarrow> string \<Rightarrow> bool" where
  "word_boundary prev s =
     ((case prev of None \<Rightarrow> False | Some p \<Rightarrow> is_word p)
        \<noteq> (case s of [] \<Rightarrow> False | c # _ \<Rightarrow> is_word c))"

text \<open>
  \<^verbatim>\<open>re.search\<close> tries the pattern at every position from the left; \<open>m prev s\<close> says
  that the pattern matches at the position where \<open>s\<close> starts and \<open>prev\<close> precedes.
\<close>

fun re_search :: "(char option \<Rightarrow> string \<Rightarrow> bool) \<Rightarrow> char option \<Rightarrow> string \<Rightarrow> bool" where
  "re_search m prev [] = m prev []"
| "re_search m prev (c # cs) = (m prev (c # cs) \<or> re_search m (Some c) cs)"

text \<open>\<^verbatim>\<open>\bw\b\<close> for a literal, non-empty \<open>w\<close>.\<close>

definition bounded_literal :: "string \<Rightarrow> char option \<Rightarrow> string \<Rightarrow> bool" where
  "bounded_literal w prev s =
     (word_boundary prev s \<and> take (length w) s = w
        \<and> word_boundary (Some (last w)) (drop (length w) s))"

text \<open>\<^verbatim>\<open>\berr-?disabled\b\<close>: the hyphen is optional.\<close>

definition re_err_disabled :: "char option \<Rightarrow> string \<Rightarrow> bool" where
  "re_err_disabled prev s =
     (bounded_literal ''err-disabled'' prev s \<or> bounded_literal ''errdisabled'' prev s)"

text \<open>
  \<^verbatim>\<open>\bnot\s*connect\b|\bnotconnect\b\<close>. After \<open>not\<close> the greedy \<^verbatim>\<open>\s*\<close> takes the
  whole run of whitespace: giving a character back leaves whitespace where \<open>c\<close> is due.
\<close>

definition re_not_connect :: "char option \<Rightarrow> string \<Rightarrow> bool" where
  "re_not_connect prev s =
     ((word_boundary prev s \<and> take 3 s = ''not''
         \<and> (let r = dropWhile is_space (drop 3 s)
            in take 7 r = ''connect'' \<and> word_boundary (Some CHR ''t'') (drop 7 r)))
      \<or> bounded_literal ''notconnect'' prev s)"

text \<open>
  \<^verbatim>\<open>re.match(r'^(Eth\d+(?:/\d+){1,2}|mgmt\d+)\b', s, re.IGNORECASE)\<close>, giving group 1.
  Every \<^verbatim>\<open>\d+\<close> takes its whole run of digits, since a shorter one is followed by a
  digit, where neither \<open>/\<close> nor \<^verbatim>\<open>\b\<close> matches. The group \<^verbatim>\<open>(?:/\d+){1,2}\<close> is tried
  twice first; when the second \<^verbatim>\<open>/\d+\<close> is missing or ends before a word character the
  match falls back to one repetition, which then ends before \<open>/\<close>, a boundary.
\<close>

definition at_word_end :: "string \<Rightarrow> bool" where
  "at_word_end r = (case r of [] \<Rightarrow> True | c # _ \<Rightarrow> \<not> is_word c)"

definition match_eth :: "string \<Rightarrow> string option" where
  "match_eth s =
     (if lower (take 3 s) \<noteq> ''eth'' then None
      else let r1 = drop 3 s; d1 = takeWhile is_digit r1; r2 = dropWhile is_digit r1 in
        if d1 = [] then None
        else (case r2 of
            [] \<Rightarrow> None
          | c2 # r3 \<Rightarrow>
              if c2 \<noteq> CHR ''/'' then None
              else let d2 = takeWhile is_digit r3; r4 = dropWhile is_digit r3;
                       one = take (3 + length d1 + 1 + length d2) s in
                if d2 = [] then None
                else (case r4 of
                    [] \<Rightarrow> Some one
                  | c4 # r5 \<Rightarrow>
                      if c4 = CHR ''/'' then
                        (let d3 = takeWhile is_digit r5; r6 = dropWhile is_digit r5 in
                           if d3 \<noteq> [] \<and> at_word_end r6
                           then Some (take (3 + length d1 + 1 + length d2 + 1 + length d3) s)
                           else Some one)
                      else if at_word_end r4 then Some one else None)))"

definition match_mgmt :: "string \<Rightarrow> string option" where
  "match_mgmt s =
     (if lower (take 4 s) \<noteq> ''mgmt'' then None
      else let r1 = drop 4 s; d1 = takeWhile is_digit r1; r2 = dropWhile is_digit r1 in
        if d1 \<noteq> [] \<and> at_word_end r2 then Some (take (4 + length d1) s) else None)"

definition match_interface :: "string \<Rightarrow> string option" where
  "match_interface s = (case match_eth s of Some i \<Rightarrow> Some i | None \<Rightarrow> match_mgmt s)"

section \<open>parse\_interface\_status\_output\<close>

text \<open>
  The set literal of the source names \<open>err-disabled\<close> twice.
\<close>

definition status_keywords :: "string list" where
  "status_keywords = [''connected'', ''notconnect'', ''not'', ''disabled'', ''err-disabled'',
                      ''err-disabled'', ''suspended'']"

text \<open>
  The loop \<^verbatim>\<open>for t in tokens[1:]\<close> with its \<^verbatim>\<open>break\<close>; \<open>status\<close> starts as
  \<open>'unknown'\<close> and keeps that value when no token is a keyword.
\<close>

fun token_scan :: "string list \<Rightarrow> string" where
  "token_scan [] = ''unknown''"
| "token_scan (t # ts) =
     (let tt = lower (strip t) in
        if tt \<in> set status_keywords then (if tt = ''not'' then ''notconnect'' else tt)
        else token_scan ts)"

text \<open>
  The last \<^verbatim>\<open>else\<close> of the keyword search: the third column, or else the third
  token, as it is written; \<open>status\<close> is left alone when there are fewer than three.
\<close>

definition column_status :: "string \<Rightarrow> string \<Rightarrow> string" where
  "column_status s status =
     (let parts = re_split_gaps False [] s in
        if 3 \<le> length parts then lower (strip (parts ! 2))
        else (let parts2 = split_ws s in
                if 3 \<le> length parts2 then lower (strip (parts2 ! 2))
                else status))"

text \<open>The body of \<^verbatim>\<open>if m:\<close> after \<open>interface = m.group(1)\<close>, for the stripped line \<open>s\<close>.\<close>

definition line_status :: "string \<Rightarrow> string" where
  "line_status s =
     (let tokens = split_ws s;
          status = token_scan (drop 1 tokens) in
        if status = ''unknown'' then
          (let low = lower s in
             if re_search re_err_disabled None low then ''err-disabled''
             else if re_search (bounded_literal ''disabled'') None low then ''disabled''
             else if re_search re_not_connect None low then ''notconnect''
             else if re_search (bounded_literal ''suspended'') None low then ''suspended''
             else if re_search (bounded_literal ''connected'') None low then ''connected''
             else column_status s status)
        else status)"

type_synonym status_map = "string \<rightharpoonup> string"

definition parse_line :: "status_map \<Rightarrow> string \<Rightarrow> status_map" where
  "parse_line interface_status line =
     (let s = lstrip line in
        case match_interface s of
          None \<Rightarrow> interface_status
        | Some interface \<Rightarrow> interface_status(interface \<mapsto> line_status s))"

definition parse_interface_status_output :: "string \<Rightarrow> status_map" where
  "parse_interface_status_output output =
     foldl parse_line Map.empty (split_char CHR 0x0A [] output)"

section \<open>Documents, exceptions and the remote session\<close>

text \<open>
  What \<^verbatim>\<open>yaml.safe_load\<close> returns: null, booleans, integers, strings, sequences
  and mappings. A mapping lists its items in the order of the document, as a Python
  \<open>dict\<close> iterates them, and its keys are distinct.
\<close>

datatype yaml =
    YNull
  | YBool bool
  | YInt int
  | YStr string
  | YSeq "yaml list"
  | YMap "(yaml \<times> yaml) list"

text \<open>
  The exceptions the program meets: the two it names, the \<open>AttributeError\<close> of a method
  call on a value that is not a string, and any other exception; the last two carry
  \<^verbatim>\<open>str(e)\<close>.
\<close>

datatype exn =
    NetmikoTimeoutException
  | NetmikoAuthenticationException
  | AttributeError string
  | OtherException string

text \<open>The three \<^verbatim>\<open>except\<close> clauses of \<^verbatim>\<open>check_device_interface_connectivity\<close>.\<close>

fun except_message :: "exn \<Rightarrow> string" where
  "except_message NetmikoTimeoutException = ''Connection Timeout''"
| "except_message NetmikoAuthenticationException = ''Authentication Failed''"
| "except_message (AttributeError msg) = ''Error: '' @ msg"
| "except_message (OtherException msg) = ''Error: '' @ msg"

fun type_name :: "yaml \<Rightarrow> string" where
  "type_name YNull = ''NoneType''"
| "type_name (YBool _) = ''bool''"
| "type_name (YInt _) = ''int''"
| "type_name (YStr _) = ''str''"
| "type_name (YSeq _) = ''list''"
| "type_name (YMap _) = ''dict''"

text \<open>The error of \<^verbatim>\<open>v.attr\<close> on a value without that attribute.\<close>

definition no_attribute :: "yaml \<Rightarrow> string \<Rightarrow> exn" where
  "no_attribute v attr =
     AttributeError ([CHR 0x27] @ type_name v @ [CHR 0x27] @ '' object has no attribute ''
                       @ [CHR 0x27] @ attr @ [CHR 0x27])"

text \<open>
  One call of \<^verbatim>\<open>ConnectHandler(**device)\<close> with the fixed parameters
  (\<open>cisco_nxos\<close>, the credentials, both timeouts 30) and what the connection then does:
  each step raises or returns.
\<close>

record session =
  connect :: "exn option"
  send_command :: "exn + string"
  disconnect :: "exn option"

record device_info =
  file_name :: string
  filepath :: string
  ip :: yaml
  hostname :: yaml

record interface_entry =
  name :: yaml
  description :: yaml
  enable :: bool

record interface_result =
  res_name :: yaml
  res_description :: yaml
  status :: string
  expected_enable :: bool
  matches_config :: bool

record device_result =
  connected :: bool
  res_hostname :: yaml
  interface_results :: "interface_result list"
  error_message :: string

section \<open>get\_interfaces\_without\_policy\<close>

text \<open>\<^verbatim>\<open>d.get(key, default)\<close> for a string key.\<close>

definition dict_get :: "(yaml \<times> yaml) list \<Rightarrow> string \<Rightarrow> yaml \<Rightarrow> yaml" where
  "dict_get kvs k dflt = (case map_of kvs (YStr k) of None \<Rightarrow> dflt | Some v \<Rightarrow> v)"

text \<open>\<^verbatim>\<open>bool(v)\<close>.\<close>

fun truthy :: "yaml \<Rightarrow> bool" where
  "truthy YNull = False"
| "truthy (YBool b) = b"
| "truthy (YInt n) = (n \<noteq> 0)"
| "truthy (YStr s) = (s \<noteq> [])"
| "truthy (YSeq xs) = (xs \<noteq> [])"
| "truthy (YMap kvs) = (kvs \<noteq> [])"

definition normalize_enable :: "yaml \<Rightarrow> bool" where
  "normalize_enable enable_val =
     (case enable_val of
        YStr s \<Rightarrow> lower s \<in> set [''true'', ''yes'', ''1'']
      | _ \<Rightarrow> truthy enable_val)"

text \<open>One round of \<^verbatim>\<open>for interface in config['Interface']\<close>: what it appends.\<close>

definition policy_free_entry :: "yaml \<Rightarrow> interface_entry list" where
  "policy_free_entry interface =
     (case interface of
        YMap kvs \<Rightarrow>
          if map_of kvs (YStr ''Policy'') = None
          then [\<lparr>name = dict_get kvs ''Name'' (YStr ''''),
                 description = dict_get kvs ''Interface Description'' (YStr ''''),
                 enable = normalize_enable (dict_get kvs ''Enable Interface'' (YBool True))\<rparr>]
          else []
      | _ \<Rightarrow> [])"

text \<open>
  The argument is what opening and loading the file gives. Every exception ends in
  \<^verbatim>\<open>return []\<close>: a file that cannot be read, and a document that is not a mapping,
  where \<^verbatim>\<open>'Interface' in config\<close> or \<^verbatim>\<open>config['Interface']\<close> raises \<open>TypeError\<close> or
  the test is false.
\<close>

definition get_interfaces_without_policy :: "exn + yaml \<Rightarrow> interface_entry list" where
  "get_interfaces_without_policy loaded =
     (case loaded of
        Inl e \<Rightarrow> []
      | Inr config \<Rightarrow>
          (case config of
             YMap kvs \<Rightarrow>
               (case map_of kvs (YStr ''Interface'') of
                  Some (YSeq items) \<Rightarrow> concat (map policy_free_entry items)
                | _ \<Rightarrow> [])
           | _ \<Rightarrow> []))"

section \<open>check\_device\_interface\_connectivity\<close>

text \<open>
  The body of \<^verbatim>\<open>for interface in interfaces_without_policy\<close>. A name that is not a
  string has no \<open>replace\<close>: the call raises.
\<close>

definition check_interface :: "status_map \<Rightarrow> interface_entry \<Rightarrow> exn + interface_result" where
  "check_interface interface_status_map interface =
     (case name interface of
        YStr interface_name \<Rightarrow>
          (let eth_name = replace ''Ethernet'' ''Eth'' interface_name;
               status = (case interface_status_map eth_name of
                           None \<Rightarrow> ''not found'' | Some st \<Rightarrow> st);
               expected_enable = enable interface;
               actual_is_connected = (status = ''connected'');
               matches = ((actual_is_connected \<and> expected_enable)
                          \<or> (\<not> actual_is_connected \<and> \<not> expected_enable))
           in Inr \<lparr>res_name = name interface, res_description = description interface,
                    status = status, expected_enable = expected_enable,
                    matches_config = matches\<rparr>)
      | v \<Rightarrow> Inl (no_attribute v ''replace''))"

text \<open>
  The loop appends to \<open>results['interface_results']\<close>; an exception leaves the results
  appended so far in place.
\<close>

fun check_interfaces ::
  "status_map \<Rightarrow> interface_entry list \<Rightarrow> device_result \<Rightarrow> exn option \<times> device_result" where
  "check_interfaces m [] results = (None, results)"
| "check_interfaces m (interface # rest) results =
     (case check_interface m interface of
        Inl e \<Rightarrow> (Some e, results)
      | Inr r \<Rightarrow>
          check_interfaces m rest
            (results\<lparr>interface_results := interface_results results @ [r]\<rparr>))"

text \<open>\<^verbatim>\<open>connection.disconnect()\<close>, the last statement of the \<^verbatim>\<open>try\<close> block.\<close>

definition finish :: "session \<Rightarrow> device_result \<Rightarrow> device_result" where
  "finish conn results =
     (case disconnect conn of
        Some e \<Rightarrow> results\<lparr>error_message := except_message e\<rparr>
      | None \<Rightarrow> results)"

text \<open>
  \<open>load\<close> reads and parses the file at a path; \<open>conn\<close> is the session this call opens.
  The descriptors of \<^verbatim>\<open>extract_devices_from_yaml\<close> all have the keys \<open>hostname\<close> and
  \<open>filepath\<close>. \<open>connected\<close> is set once, after \<^verbatim>\<open>ConnectHandler\<close> has returned, and
  no \<^verbatim>\<open>except\<close> clause writes it.
\<close>

definition check_device_interface_connectivity ::
  "(string \<Rightarrow> exn + yaml) \<Rightarrow> session \<Rightarrow> device_info \<Rightarrow> device_result" where
  "check_device_interface_connectivity load conn device_info =
     (let results = \<lparr>connected = False, res_hostname = hostname device_info,
                      interface_results = [], error_message = ''''\<rparr> in
        case connect conn of
          Some e \<Rightarrow> results\<lparr>error_message := except_message e\<rparr>
        | None \<Rightarrow>
            (let results = results\<lparr>connected := True\<rparr>;
                 interfaces_without_policy =
                   get_interfaces_without_policy (load (filepath device_info)) in
               if interfaces_without_policy \<noteq> [] then
                 (case send_command conn of
                    Inl e \<Rightarrow> results\<lparr>error_message := except_message e\<rparr>
                  | Inr status_output \<Rightarrow>
                      (let interface_status_map = parse_interface_status_output status_output in
                         case check_interfaces interface_status_map
                                interfaces_without_policy results of
                           (Some e, results) \<Rightarrow> results\<lparr>error_message := except_message e\<rparr>
                         | (None, results) \<Rightarrow> finish conn results))
               else finish conn results))"

section \<open>extract\_devices\_from\_yaml\<close>

text \<open>
  What \<^verbatim>\<open>rglob("*")\<close> yields below the root: the parts of the path relative to the
  root, and whether the path is a regular file. The order of the list is the order of
  discovery.
\<close>

record entry =
  rel_parts :: "string list"
  is_file :: bool

text \<open>\<^verbatim>\<open>yaml_file.name\<close>, \<^verbatim>\<open>yaml_file.suffix\<close> and \<^verbatim>\<open>str(yaml_file)\<close>.\<close>

definition path_name :: "string list \<Rightarrow> string" where
  "path_name parts = (case rev parts of [] \<Rightarrow> [] | n # _ \<Rightarrow> n)"

text \<open>
  \<^verbatim>\<open>i = name.rfind('.')\<close>; the suffix is \<^verbatim>\<open>name[i:]\<close> when \<^verbatim>\<open>0 < i < len(name) - 1\<close>
  and empty otherwise.
\<close>

definition suffix :: "string \<Rightarrow> string" where
  "suffix nm =
     (if CHR ''.'' \<notin> set nm then []
      else let after = length (takeWhile (\<lambda>c. c \<noteq> CHR ''.'') (rev nm));
               i = length nm - after - 1 in
        if 0 < i \<and> 0 < after then drop i nm else [])"

definition path_str :: "string \<Rightarrow> string list \<Rightarrow> string" where
  "path_str root parts = root @ concat (map (\<lambda>p. CHR ''/'' # p) parts)"

text \<open>
  The keys \<open>ip\<close> and \<open>hostname\<close> of \<open>device_info\<close> while the document is searched:
  absent at first.
\<close>

record found =
  found_ip :: "yaml option"
  found_hostname :: "yaml option"

text \<open>
  \<^verbatim>\<open>find_device_info\<close> with its two loops. Both assignments overwrite. A key that is
  not a string has no \<open>lower\<close>; the exception leaves the search.
\<close>

fun find_device_info :: "yaml \<Rightarrow> found \<Rightarrow> exn + found"
  and find_in_items :: "(yaml \<times> yaml) list \<Rightarrow> found \<Rightarrow> exn + found"
  and find_in_list :: "yaml list \<Rightarrow> found \<Rightarrow> exn + found" where
  "find_device_info (YMap kvs) info = find_in_items kvs info"
| "find_device_info (YSeq xs) info = find_in_list xs info"
| "find_device_info YNull info = Inr info"
| "find_device_info (YBool b) info = Inr info"
| "find_device_info (YInt n) info = Inr info"
| "find_device_info (YStr s) info = Inr info"
| "find_in_items [] info = Inr info"
| "find_in_items ((key, val) # rest) info =
     (case key of
        YStr k \<Rightarrow>
          if lower k = ''ip address'' \<or> lower k = ''ip_address''
            then find_in_items rest (info\<lparr>found_ip := Some val\<rparr>)
          else if lower k = ''hostname''
            then find_in_items rest (info\<lparr>found_hostname := Some val\<rparr>)
          else if (case val of YMap _ \<Rightarrow> True | YSeq _ \<Rightarrow> True | _ \<Rightarrow> False)
            then (case find_device_info val info of
                    Inl e \<Rightarrow> Inl e
                  | Inr info' \<Rightarrow> find_in_items rest info')
          else find_in_items rest info
      | _ \<Rightarrow> Inl (no_attribute key ''lower''))"
| "find_in_list [] info = Inr info"
| "find_in_list (item # rest) info =
     (case find_device_info item info of
        Inl e \<Rightarrow> Inl e
      | Inr info' \<Rightarrow> find_in_list rest info')"

text \<open>
  One round of the loop over the files, up to the test for both keys: the descriptor
  the file gives, or none when the round ends in \<^verbatim>\<open>continue\<close>, in the
  \<^verbatim>\<open>except\<close> clause (opening, loading or searching the file raised; the error is
  printed) or without both keys.
\<close>

definition document_descriptor ::
  "string \<Rightarrow> (string \<Rightarrow> exn + yaml) \<Rightarrow> entry \<Rightarrow> device_info option" where
  "document_descriptor root load yaml_file =
     (if \<not> is_file yaml_file then None
      else if lower (suffix (path_name (rel_parts yaml_file))) \<notin> set [''.yaml'', ''.yml'']
        then None
      else if length (rel_parts yaml_file) < 2 then None
      else (case load (path_str root (rel_parts yaml_file)) of
          Inl e \<Rightarrow> None
        | Inr data \<Rightarrow>
            (case find_device_info data \<lparr>found_ip = None, found_hostname = None\<rparr> of
               Inl e \<Rightarrow> None
             | Inr info \<Rightarrow>
                 (case (found_ip info, found_hostname info) of
                    (Some i, Some h) \<Rightarrow>
                      Some \<lparr>file_name = path_name (rel_parts yaml_file),
                            filepath = path_str root (rel_parts yaml_file),
                            ip = i, hostname = h\<rparr>
                  | _ \<Rightarrow> None))))"

text \<open>
  \<open>device_list\<close> and \<open>seen_devices\<close>, and the rest of the round. \<open>fmt\<close> is Python's
  formatting of a value inside the f-string of \<open>device_key\<close> (\<^verbatim>\<open>str\<close>: a string is
  itself).
\<close>

record scan_state =
  device_list :: "device_info list"
  seen_devices :: "string list"

definition device_key :: "(yaml \<Rightarrow> string) \<Rightarrow> device_info \<Rightarrow> string" where
  "device_key fmt device_info = fmt (hostname device_info) @ ''_'' @ fmt (ip device_info)"

definition scan_file ::
  "(yaml \<Rightarrow> string) \<Rightarrow> string \<Rightarrow> (string \<Rightarrow> exn + yaml) \<Rightarrow> scan_state \<Rightarrow> entry \<Rightarrow> scan_state" where
  "scan_file fmt root load st yaml_file =
     (case document_descriptor root load yaml_file of
        None \<Rightarrow> st
      | Some device_info \<Rightarrow>
          if device_key fmt device_info \<in> set (seen_devices st) then st
          else \<lparr>device_list = device_list st @ [device_info],
                seen_devices = device_key fmt device_info # seen_devices st\<rparr>)"

text \<open>
  The configuration tree as the program sees it: the root path, whether it exists, the
  entries below it, and the reading of a file.
\<close>

record config_tree =
  root :: string
  root_exists :: bool
  entries :: "entry list"
  contents :: "string \<Rightarrow> exn + yaml"

definition extract_devices_from_yaml :: "(yaml \<Rightarrow> string) \<Rightarrow> config_tree \<Rightarrow> device_info list" where
  "extract_devices_from_yaml fmt t =
     (if \<not> root_exists t then []
      else device_list
             (foldl (scan_file fmt (root t) (contents t))
                \<lparr>device_list = [], seen_devices = []\<rparr> (entries t)))"

section \<open>check\<close>

text \<open>
  The loop over \<open>results['interface_results']\<close> and the loop over the devices; the flag
  is \<open>interconnects_config_match\<close>. \<open>net\<close> gives the session that the call for a
  device opens. What the program prints is left out.
\<close>

fun report_interfaces :: "interface_result list \<Rightarrow> bool \<Rightarrow> bool" where
  "report_interfaces [] interconnects_config_match = interconnects_config_match"
| "report_interfaces (interface_result # rest) interconnects_config_match =
     report_interfaces rest
       (if \<not> matches_config interface_result then False else interconnects_config_match)"

fun check_devices ::
  "(string \<Rightarrow> exn + yaml) \<Rightarrow> (device_info \<Rightarrow> session) \<Rightarrow> device_info list \<Rightarrow> bool \<Rightarrow> bool" where
  "check_devices load net [] interconnects_config_match = interconnects_config_match"
| "check_devices load net (device # rest) interconnects_config_match =
     (let results = check_device_interface_connectivity load (net device) device in
        check_devices load net rest
          (if connected results then
             (if interface_results results \<noteq> []
              then report_interfaces (interface_results results) interconnects_config_match
              else interconnects_config_match)
           else False))"

definition check :: "(yaml \<Rightarrow> string) \<Rightarrow> config_tree \<Rightarrow> (device_info \<Rightarrow> session) \<Rightarrow> bool" where
  "check fmt t net =
     (let device_list = extract_devices_from_yaml fmt t in
        if device_list = [] then False
        else check_devices (contents t) net device_list True)"

section \<open>The fabric-wide conjunction and example inputs\<close>

text \<open>
  The results of one run, device by device, and the conjunction of every
  \<open>connected\<close> flag and every \<open>matches_config\<close> flag in them.
\<close>

definition device_results ::
  "(yaml \<Rightarrow> string) \<Rightarrow> config_tree \<Rightarrow> (device_info \<Rightarrow> session) \<Rightarrow> device_result list" where
  "device_results fmt t net =
     map (\<lambda>device. check_device_interface_connectivity (contents t) (net device) device)
       (extract_devices_from_yaml fmt t)"

definition fabric_and :: "device_result list \<Rightarrow> bool" where
  "fabric_and rs =
     (list_all connected rs \<and> list_all matches_config (concat (map interface_results rs)))"

text \<open>
  \<^verbatim>\<open>str(v)\<close> on strings, for the examples, whose documents name their devices by
  strings; on a value that is not a string it is not Python's \<^verbatim>\<open>str\<close>. The theorems
  hold for every \<open>fmt\<close>.
\<close>

definition str_of :: "yaml \<Rightarrow> string" where
  "str_of v = (case v of YStr s \<Rightarrow> s | _ \<Rightarrow> [])"

text \<open>
  A device document with two interfaces without a policy and one with a policy, a tree
  that holds it twice below \<open>leaf/\<close> and once directly under the root, and a tree
  without files.
\<close>

definition sw1_doc :: yaml where
  "sw1_doc =
     YMap [(YStr ''hostname'', YStr ''sw1''),
           (YStr ''IP Address'', YStr ''10.0.0.1''),
           (YStr ''Interface'',
              YSeq [YMap [(YStr ''Name'', YStr ''Ethernet1/1''),
                          (YStr ''Interface Description'', YStr ''Server-Uplink'')],
                    YMap [(YStr ''Name'', YStr ''Ethernet1/2''),
                          (YStr ''Enable Interface'', YBool False)],
                    YMap [(YStr ''Name'', YStr ''Ethernet1/3''),
                          (YStr ''Policy'', YStr ''int_trunk_host'')]])]"

definition sw1_tree :: config_tree where
  "sw1_tree =
     \<lparr>root = ''/repo/network_configs/node'', root_exists = True,
      entries = [\<lparr>rel_parts = [''sw1.yaml''], is_file = True\<rparr>,
                 \<lparr>rel_parts = [''leaf''], is_file = False\<rparr>,
                 \<lparr>rel_parts = [''leaf'', ''sw1.yaml''], is_file = True\<rparr>,
                 \<lparr>rel_parts = [''leaf'', ''sw1_copy.yml''], is_file = True\<rparr>],
      contents = (\<lambda>p. Inr sw1_doc)\<rparr>"

definition empty_tree :: config_tree where
  "empty_tree =
     \<lparr>root = ''/repo/network_configs/node'', root_exists = True, entries = [],
      contents = (\<lambda>p. Inl (OtherException ''No such file or directory''))\<rparr>"

text \<open>
  Sessions: one that answers with the given text, one whose connection times out, and one
  that connects and then times out in \<^verbatim>\<open>send_command\<close>.
\<close>

definition answering :: "string \<Rightarrow> session" where
  "answering out = \<lparr>connect = None, send_command = Inr out, disconnect = None\<rparr>"

definition unreachable :: session where
  "unreachable =
     \<lparr>connect = Some NetmikoTimeoutException, send_command = Inl NetmikoTimeoutException,
      disconnect = None\<rparr>"

definition command_timeout :: session where
  "command_timeout =
     \<lparr>connect = None, send_command = Inl NetmikoTimeoutException, disconnect = None\<rparr>"

definition sw1_output :: string where
  "sw1_output = ''Port          Name               Status    Vlan      Duplex  Speed   Type'' @ [CHR 0x0A]
     @ ''Eth1/1   Server-Uplink   connected   1   full   1000   fiber'' @ [CHR 0x0A]
     @ ''Eth1/2        --                 notconnect 1         auto    auto    10g''"

section \<open>Discovery order, deduplication and traversal order\<close>

text \<open>
  The descriptors that the documents of a tree give, one for every file that gives one,
  in the order of discovery and before deduplication.
\<close>

definition discovered :: "config_tree \<Rightarrow> device_info list" where
  "discovered t =
     (if root_exists t
      then List.map_filter (document_descriptor (root t) (contents t)) (entries t)
      else [])"

text \<open>
  Keeping, of the elements with the same key, the first one only; \<open>seen\<close> holds the keys
  that are taken already.
\<close>

fun keep_first :: "('a \<Rightarrow> 'k) \<Rightarrow> 'k list \<Rightarrow> 'a list \<Rightarrow> 'a list" where
  "keep_first key seen [] = []"
| "keep_first key seen (d # ds) =
     (if key d \<in> set seen then keep_first key seen ds
      else d # keep_first key (key d # seen) ds)"

text \<open>
  The identity keys that the search meets in a document, in the order in which it meets
  them: the items of a mapping in their order, the value of any other key searched before
  the next item, and the items of a sequence in their order. A key that is not a string
  ends the search.
\<close>

datatype identity_field = Address | Hostname

fun occurrences :: "yaml \<Rightarrow> (identity_field \<times> yaml) list"
  and occurrences_items :: "(yaml \<times> yaml) list \<Rightarrow> (identity_field \<times> yaml) list"
  and occurrences_list :: "yaml list \<Rightarrow> (identity_field \<times> yaml) list" where
  "occurrences (YMap kvs) = occurrences_items kvs"
| "occurrences (YSeq xs) = occurrences_list xs"
| "occurrences YNull = []"
| "occurrences (YBool b) = []"
| "occurrences (YInt n) = []"
| "occurrences (YStr s) = []"
| "occurrences_items [] = []"
| "occurrences_items ((key, val) # rest) =
     (case key of
        YStr k \<Rightarrow>
          if lower k = ''ip address'' \<or> lower k = ''ip_address''
            then (Address, val) # occurrences_items rest
          else if lower k = ''hostname''
            then (Hostname, val) # occurrences_items rest
          else occurrences val @ occurrences_items rest
      | _ \<Rightarrow> [])"
| "occurrences_list [] = []"
| "occurrences_list (item # rest) = occurrences item @ occurrences_list rest"

text \<open>The values met for one field, in that order.\<close>

definition values_of :: "identity_field \<Rightarrow> yaml \<Rightarrow> yaml list" where
  "values_of f doc = map snd (filter (\<lambda>p. fst p = f) (occurrences doc))"

text \<open>A document put \<open>n\<close> levels down, each level a mapping that holds a sequence.\<close>

fun nested :: "nat \<Rightarrow> yaml \<Rightarrow> yaml" where
  "nested 0 doc = doc"
| "nested (Suc n) doc = YMap [(YStr ''children'', YSeq [nested n doc])]"

text \<open>A document that names its host twice, the second time one level down.\<close>

definition two_names_doc :: yaml where
  "two_names_doc =
     YMap [(YStr ''hostname'', YStr ''first''),
           (YStr ''ip address'', YStr ''10.0.0.1''),
           (YStr ''backup'', YMap [(YStr ''HostName'', YStr ''second'')])]"

text \<open>Writing one occurrence into the keys found so far, as the two assignments do.\<close>

definition record_field :: "found \<Rightarrow> identity_field \<times> yaml \<Rightarrow> found" where
  "record_field info p =
     (case fst p of
        Address \<Rightarrow> info\<lparr>found_ip := Some (snd p)\<rparr>
      | Hostname \<Rightarrow> info\<lparr>found_hostname := Some (snd p)\<rparr>)"

section \<open>The strategies of the status parser, named\<close>

text \<open>
  The keyword search of \<open>line_status\<close> as a table in its order of priority, and the
  first keyword of the table whose pattern is found in the lower-cased line.
\<close>

definition keyword_patterns :: "(string \<times> (char option \<Rightarrow> string \<Rightarrow> bool)) list" where
  "keyword_patterns =
     [(''err-disabled'', re_err_disabled),
      (''disabled'', bounded_literal ''disabled''),
      (''notconnect'', re_not_connect),
      (''suspended'', bounded_literal ''suspended''),
      (''connected'', bounded_literal ''connected'')]"

definition keyword_search :: "string \<Rightarrow> string option" where
  "keyword_search low =
     map_option fst (find (\<lambda>p. re_search (snd p) None low) keyword_patterns)"

text \<open>The five status words of the device.\<close>

definition status_vocabulary :: "string list" where
  "status_vocabulary = [''connected'', ''notconnect'', ''disabled'', ''err-disabled'', ''suspended'']"

text \<open>
  Lines of output: one with the status as a token of its own, one with the status in
  brackets, and one whose third column is no status word.
\<close>

definition uplink_line :: string where
  "uplink_line = ''Eth1/1   Server-Uplink   connected   1   full   1000   fiber''"

definition bracket_line :: string where
  "bracket_line = ''Eth1/2   Storage   (disabled)   1   full   1000   fiber''"

definition up_line :: string where
  "up_line = ''Eth1/1  Server-Uplink  up  1''"

section \<open>Reconciliation, named, and further example inputs\<close>





definition collision_tree :: config_tree where
  "collision_tree =
     \<lparr>root = ''/repo/network_configs/node'', root_exists = True,
      entries = [\<lparr>rel_parts = [''a'', ''leaf_1.yaml''], is_file = True\<rparr>,
                 \<lparr>rel_parts = [''b'', ''leaf.yaml''], is_file = True\<rparr>,
                 \<lparr>rel_parts = [''c'', ''leaf.yaml''], is_file = True\<rparr>],
      contents = (\<lambda>p. if p = ''/repo/network_configs/node/a/leaf_1.yaml''
                        then Inr (YMap [(YStr ''hostname'', YStr ''leaf_1''),
                                        (YStr ''ip address'', YStr ''10.0.0.1'')])
                        else Inr (YMap [(YStr ''hostname'', YStr ''leaf''),
                                        (YStr ''ip address'', YStr ''1_10.0.0.1'')]))\<rparr>"

section \<open>The verdict of a run\<close>

lemma report_interfaces_eq:
  "report_interfaces rs flag = (flag \<and> list_all matches_config rs)"
  by (induction rs arbitrary: flag) auto

lemma check_devices_eq:
  "check_devices load net ds flag =
     (flag \<and> fabric_and (map (\<lambda>d. check_device_interface_connectivity load (net d) d) ds))"
  by (induction ds arbitrary: flag) (auto simp: fabric_and_def report_interfaces_eq Let_def)

lemma check_eq:
  "check fmt t net =
     (extract_devices_from_yaml fmt t \<noteq> [] \<and> fabric_and (device_results fmt t net))"
  by (simp add: check_def check_devices_eq device_results_def Let_def)

lemma fabric_and_iff:
  "fabric_and rs =
     (\<forall>r \<in> set rs. connected r \<and> (\<forall>i \<in> set (interface_results r). matches_config i))"
  by (auto simp: fabric_and_def list_all_iff)

text \<open>
  C1, as the code has it: when the scan finds at least one device, the verdict of
  \<open>check\<close> is the conjunction of the \<open>connected\<close> flag of every device and the
  \<open>matches_config\<close> flag of every interface result of every device; and in any run one
  device that is not connected, or one interface result that does not match, makes the
  verdict false.
\<close>

theorem check_verdict_is_fabric_and:
  "(extract_devices_from_yaml fmt t \<noteq> [] \<longrightarrow>
      check fmt t net = fabric_and (device_results fmt t net))
   \<and> (\<forall>r \<in> set (device_results fmt t net). \<not> connected r \<longrightarrow> \<not> check fmt t net)
   \<and> (\<forall>r \<in> set (device_results fmt t net). \<forall>i \<in> set (interface_results r).
         \<not> matches_config i \<longrightarrow> \<not> check fmt t net)"
  by (auto simp: check_eq fabric_and_iff)

theorem check_verdict_is_fabric_and_witness:
  "extract_devices_from_yaml str_of sw1_tree \<noteq> []
   \<and> check str_of sw1_tree (\<lambda>d. answering sw1_output)
       = fabric_and (device_results str_of sw1_tree (\<lambda>d. answering sw1_output))
   \<and> check str_of sw1_tree (\<lambda>d. answering sw1_output)
   \<and> \<not> check str_of sw1_tree (\<lambda>d. unreachable)"
proof -
  have found: "extract_devices_from_yaml str_of sw1_tree \<noteq> []"
    by code_simp
  have ok: "fabric_and (device_results str_of sw1_tree (\<lambda>d. answering sw1_output))"
    by code_simp
  have r: "device_results str_of sw1_tree (\<lambda>d. unreachable)
             = [\<lparr>connected = False, res_hostname = YStr ''sw1'', interface_results = [],
                 error_message = ''Connection Timeout''\<rparr>]"
    by code_simp
  from check_verdict_is_fabric_and [of str_of sw1_tree "\<lambda>d. answering sw1_output"] found
  have eq: "check str_of sw1_tree (\<lambda>d. answering sw1_output)
              = fabric_and (device_results str_of sw1_tree (\<lambda>d. answering sw1_output))"
    by blast
  from check_verdict_is_fabric_and [of str_of sw1_tree "\<lambda>d. unreachable"] r
  have down: "\<not> check str_of sw1_tree (\<lambda>d. unreachable)"
    by simp
  from found eq ok down show ?thesis by simp
qed

text \<open>
  C1 as the specification states it, for every run, fails on a tree without devices: the
  conjunction over no devices is true and \<open>check\<close> returns false.
\<close>

theorem check_verdict_empty_counterexample:
  "\<not> (check str_of empty_tree (\<lambda>d. unreachable)
        = fabric_and (device_results str_of empty_tree (\<lambda>d. unreachable)))"
  by code_simp

text \<open>
  C10: when the scan finds no device, \<open>check\<close> returns false, although the conjunction
  over no devices is true.
\<close>

theorem check_no_devices_fails:
  "extract_devices_from_yaml fmt t = [] \<Longrightarrow>
     \<not> check fmt t net \<and> fabric_and (device_results fmt t net)"
  by (simp add: check_eq device_results_def fabric_and_def)

theorem check_no_devices_fails_witness:
  "extract_devices_from_yaml str_of empty_tree = []
   \<and> \<not> check str_of empty_tree (\<lambda>d. answering sw1_output)
   \<and> fabric_and (device_results str_of empty_tree (\<lambda>d. answering sw1_output))"
proof -
  have none: "extract_devices_from_yaml str_of empty_tree = []"
    by code_simp
  from check_no_devices_fails [OF none, of "\<lambda>d. answering sw1_output"] none
  show ?thesis by simp
qed

section \<open>Reconciliation\<close>

lemma check_interfaces_results:
  "r \<in> set (interface_results (snd (check_interfaces m is results))) \<Longrightarrow>
     r \<in> set (interface_results results) \<or> (\<exists>i \<in> set is. check_interface m i = Inr r)"
proof (induction "is" arbitrary: results)
  case Nil
  then show ?case by simp
next
  case (Cons i rest)
  show ?case
  proof (cases "check_interface m i")
    case (Inl e)
    with Cons.prems show ?thesis by simp
  next
    case (Inr x)
    with Cons.prems
    have "r \<in> set (interface_results
                    (snd (check_interfaces m rest
                            (results\<lparr>interface_results := interface_results results @ [x]\<rparr>))))"
      by simp
    from Cons.IH [OF this] Inr show ?thesis by auto
  qed
qed

lemma interface_results_finish [simp]:
  "interface_results (finish conn results) = interface_results results"
  by (simp add: finish_def split: option.splits)

text \<open>
  Every interface result of a device comes from one round of the loop, on the status map
  parsed from the answer to the one command.
\<close>

lemma interface_results_origin:
  assumes "r \<in> set (interface_results (check_device_interface_connectivity load conn dev))"
  shows "\<exists>out i. send_command conn = Inr out
           \<and> i \<in> set (get_interfaces_without_policy (load (filepath dev)))
           \<and> check_interface (parse_interface_status_output out) i = Inr r"
proof (cases "connect conn")
  case (Some e)
  with assms show ?thesis
    by (simp add: check_device_interface_connectivity_def)
next
  case None
  show ?thesis
  proof (cases "get_interfaces_without_policy (load (filepath dev)) = []")
    case True
    with None assms show ?thesis
      by (simp add: check_device_interface_connectivity_def)
  next
    case False
    show ?thesis
    proof (cases "send_command conn")
      case (Inl e)
      with None False assms show ?thesis
        by (simp add: check_device_interface_connectivity_def)
    next
      case (Inr out)
      let ?m = "parse_interface_status_output out"
      let ?r0 = "\<lparr>connected = True, res_hostname = hostname dev,
                   interface_results = [], error_message = ''''\<rparr>"
      let ?c = "check_interfaces ?m (get_interfaces_without_policy (load (filepath dev))) ?r0"
      from None False Inr assms
      have "r \<in> set (interface_results (snd ?c))"
        by (cases ?c) (auto simp: check_device_interface_connectivity_def split: option.splits)
      from check_interfaces_results [OF this] Inr show ?thesis
        by auto
    qed
  qed
qed

lemma check_interface_Inr:
  assumes "check_interface m i = Inr r"
  shows "\<exists>n. name i = YStr n \<and> res_name r = YStr n
           \<and> res_description r = description i
           \<and> status r = (case m (replace ''Ethernet'' ''Eth'' n) of
                            None \<Rightarrow> ''not found'' | Some st \<Rightarrow> st)
           \<and> expected_enable r = enable i
           \<and> matches_config r = ((status r = ''connected'') = enable i)"
  using assms by (cases "name i") (auto simp: check_interface_def Let_def)

text \<open>
  C2: an interface check with any status \<open>st\<close> in the map and any expectation \<open>e\<close>
  records \<open>matches_config = ((st = 'connected') = e)\<close>, so a status other than
  \<open>connected\<close> matches exactly the disabled expectation; and every interface result
  that \<^verbatim>\<open>check_device_interface_connectivity\<close> returns obeys the same rule.
\<close>

theorem matches_config_rule:
  "(m (replace ''Ethernet'' ''Eth'' n) = Some st \<longrightarrow>
      check_interface m \<lparr>name = YStr n, description = d, enable = e\<rparr>
        = Inr \<lparr>res_name = YStr n, res_description = d, status = st, expected_enable = e,
               matches_config = ((st = ''connected'') = e)\<rparr>)
   \<and> (st \<noteq> ''connected'' \<longrightarrow> ((st = ''connected'') = e) = (\<not> e))
   \<and> (\<forall>r \<in> set (interface_results (check_device_interface_connectivity load conn dev)).
         matches_config r = ((status r = ''connected'') = expected_enable r))"
proof (intro conjI impI ballI)
  assume "m (replace ''Ethernet'' ''Eth'' n) = Some st"
  then show "check_interface m \<lparr>name = YStr n, description = d, enable = e\<rparr>
        = Inr \<lparr>res_name = YStr n, res_description = d, status = st, expected_enable = e,
               matches_config = ((st = ''connected'') = e)\<rparr>"
    by (auto simp: check_interface_def Let_def)
next
  assume "st \<noteq> ''connected''"
  then show "((st = ''connected'') = e) = (\<not> e)" by simp
next
  fix r
  assume "r \<in> set (interface_results (check_device_interface_connectivity load conn dev))"
  from interface_results_origin [OF this] obtain out i
    where "check_interface (parse_interface_status_output out) i = Inr r" by blast
  from check_interface_Inr [OF this] show "matches_config r = ((status r = ''connected'') = expected_enable r)"
    by auto
qed

theorem matches_config_rule_witness:
  "(Map.empty(''Eth1/1'' \<mapsto> ''unknown'')) (replace ''Ethernet'' ''Eth'' ''Ethernet1/1'') = Some ''unknown''
   \<and> check_interface (Map.empty(''Eth1/1'' \<mapsto> ''unknown''))
         \<lparr>name = YStr ''Ethernet1/1'', description = YStr '''', enable = False\<rparr>
       = Inr \<lparr>res_name = YStr ''Ethernet1/1'', res_description = YStr '''',
              status = ''unknown'', expected_enable = False, matches_config = True\<rparr>
   \<and> map (\<lambda>r. (status r, expected_enable r, matches_config r))
         (interface_results
            (check_device_interface_connectivity (contents sw1_tree) (answering sw1_output)
               (hd (extract_devices_from_yaml str_of sw1_tree))))
       = [(''connected'', True, True), (''notconnect'', False, True)]"
proof -
  have look: "(Map.empty(''Eth1/1'' \<mapsto> ''unknown'')) (replace ''Ethernet'' ''Eth'' ''Ethernet1/1'')
                = Some ''unknown''"
    by simp
  have other: "''unknown'' \<noteq> ''connected''"
    by simp
  have run: "map (\<lambda>r. (status r, expected_enable r, matches_config r))
         (interface_results
            (check_device_interface_connectivity (contents sw1_tree) (answering sw1_output)
               (hd (extract_devices_from_yaml str_of sw1_tree))))
       = [(''connected'', True, True), (''notconnect'', False, True)]"
    by code_simp
  from matches_config_rule [of "(Map.empty(''Eth1/1'' \<mapsto> ''unknown''))" "''Ethernet1/1''" "''unknown''"
      "YStr ''''" False] look other
  have "check_interface (Map.empty(''Eth1/1'' \<mapsto> ''unknown''))
         \<lparr>name = YStr ''Ethernet1/1'', description = YStr '''', enable = False\<rparr>
       = Inr \<lparr>res_name = YStr ''Ethernet1/1'', res_description = YStr '''',
              status = ''unknown'', expected_enable = False, matches_config = True\<rparr>"
    by simp
  with look run show ?thesis by simp
qed









section \<open>Exceptions of the remote session\<close>

lemma except_message_nonempty:
  "except_message e \<noteq> []"
  by (cases e) simp_all

lemma connect_failure_recorded:
  "connect conn = Some e \<Longrightarrow>
     check_device_interface_connectivity load conn dev
       = \<lparr>connected = False, res_hostname = hostname dev, interface_results = [],
          error_message = except_message e\<rparr>"
  by (simp add: check_device_interface_connectivity_def)

text \<open>
  C3 says that an exception during connect, command execution or disconnect leaves
  \<open>connected = false\<close> and makes the run fail. The code does so for an exception of
  \<^verbatim>\<open>ConnectHandler\<close> only (\<open>connect_failure_recorded\<close>). On the device of \<open>sw1_tree\<close>,
  with a session that connects and then times out in \<^verbatim>\<open>send_command\<close>, the result
  keeps \<open>connected = True\<close> next to the error message \<open>Connection Timeout\<close>, has no
  interface results, and \<open>check\<close> returns true.
\<close>

theorem command_timeout_passes_check:
  "extract_devices_from_yaml str_of sw1_tree
     = [\<lparr>file_name = ''sw1.yaml'', filepath = ''/repo/network_configs/node/leaf/sw1.yaml'',
         ip = YStr ''10.0.0.1'', hostname = YStr ''sw1''\<rparr>]
   \<and> check_device_interface_connectivity (contents sw1_tree) command_timeout
         \<lparr>file_name = ''sw1.yaml'', filepath = ''/repo/network_configs/node/leaf/sw1.yaml'',
          ip = YStr ''10.0.0.1'', hostname = YStr ''sw1''\<rparr>
       = \<lparr>connected = True, res_hostname = YStr ''sw1'', interface_results = [],
          error_message = ''Connection Timeout''\<rparr>
   \<and> check str_of sw1_tree (\<lambda>d. command_timeout)"
  by code_simp

section \<open>Discovery\<close>

lemma document_descriptor_Some:
  assumes "document_descriptor r ld e = Some d"
  shows "is_file e \<and> 2 \<le> length (rel_parts e)
           \<and> lower (suffix (path_name (rel_parts e))) \<in> {''.yaml'', ''.yml''}
           \<and> file_name d = path_name (rel_parts e)
           \<and> filepath d = path_str r (rel_parts e)"
  using assms
  by (auto simp: document_descriptor_def split: if_splits sum.splits option.splits)

lemma document_descriptor_shallow:
  "length (rel_parts e) < 2 \<Longrightarrow> document_descriptor r ld e = None"
  by (simp add: document_descriptor_def)

lemma set_map_filter_iff:
  "d \<in> set (List.map_filter f xs) \<longleftrightarrow> (\<exists>x \<in> set xs. f x = Some d)"
  by (induction xs) (auto split: option.splits)

lemma foldl_filter_skip:
  assumes "\<And>s x. \<not> P x \<Longrightarrow> f s x = s"
  shows "foldl f s (filter P xs) = foldl f s xs"
  using assms by (induction xs arbitrary: s) auto

lemma scan_files_keep_first:
  "device_list (foldl (scan_file fmt r ld) st es)
     = device_list st
         @ keep_first (device_key fmt) (seen_devices st)
             (List.map_filter (document_descriptor r ld) es)"
proof (induction es arbitrary: st)
  case Nil
  show ?case by simp
next
  case (Cons e es)
  show ?case
  proof (cases "document_descriptor r ld e")
    case None
    with Cons.IH [of st] show ?thesis
      by (simp add: scan_file_def)
  next
    case (Some d)
    show ?thesis
    proof (cases "device_key fmt d \<in> set (seen_devices st)")
      case True
      with Some Cons.IH [of st] show ?thesis
        by (simp add: scan_file_def)
    next
      case False
      let ?st = "\<lparr>device_list = device_list st @ [d],
                   seen_devices = device_key fmt d # seen_devices st\<rparr>"
      from Some False have "scan_file fmt r ld st e = ?st"
        by (simp add: scan_file_def)
      with Some False Cons.IH [of ?st] show ?thesis
        by simp
    qed
  qed
qed

lemma extract_keep_first:
  "extract_devices_from_yaml fmt t = keep_first (device_key fmt) [] (discovered t)"
  by (simp add: extract_devices_from_yaml_def discovered_def scan_files_keep_first)

lemma set_keep_first:
  "set (keep_first key seen ds) \<subseteq> set ds"
  by (induction ds arbitrary: seen) auto

lemma keys_keep_first:
  "key ` set (keep_first key seen ds) \<inter> set seen = {}"
proof (induction ds arbitrary: seen)
  case Nil
  show ?case by simp
next
  case (Cons d ds)
  from Cons.IH [of seen] Cons.IH [of "key d # seen"] show ?case by auto
qed

lemma distinct_keep_first:
  "distinct (map key (keep_first key seen ds))"
proof (induction ds arbitrary: seen)
  case Nil
  show ?case by simp
next
  case (Cons d ds)
  from keys_keep_first [of key "key d # seen" ds] Cons.IH show ?case by auto
qed

lemma filter_keep_first:
  "filter (\<lambda>d. key d = k) (keep_first key seen ds)
     = (if k \<in> set seen then []
        else case find (\<lambda>d. key d = k) ds of None \<Rightarrow> [] | Some d \<Rightarrow> [d])"
proof (induction ds arbitrary: seen)
  case Nil
  show ?case by simp
next
  case (Cons d ds)
  show ?case
  proof (cases "key d \<in> set seen")
    case True
    with Cons.IH [of seen] show ?thesis by auto
  next
    case False
    with Cons.IH [of "key d # seen"] show ?thesis by auto
  qed
qed

lemma find_Some_of_member:
  "d \<in> set ds \<Longrightarrow> \<exists>d'. find (\<lambda>x. key x = key d) ds = Some d'"
  by (induction ds) auto

text \<open>
  C7: a round of the scan over a file directly under the root (fewer than two relative
  parts) leaves the device list and the seen keys as they are, whatever the reading of
  files gives; so the scan of a tree gives what the scan of its entries at depth two or
  more gives, and every descriptor returned comes from a regular file at depth two or
  more whose suffix is \<open>.yaml\<close> or \<open>.yml\<close> in any case of letters.
\<close>

theorem top_level_files_never_contribute:
  "(length (rel_parts e) < 2 \<longrightarrow> scan_file fmt r ld st e = st)
   \<and> extract_devices_from_yaml fmt t
       = extract_devices_from_yaml fmt
           (t\<lparr>entries := filter (\<lambda>e. 2 \<le> length (rel_parts e)) (entries t)\<rparr>)
   \<and> (\<forall>d \<in> set (extract_devices_from_yaml fmt t). \<exists>e \<in> set (entries t).
         is_file e \<and> 2 \<le> length (rel_parts e)
         \<and> lower (suffix (path_name (rel_parts e))) \<in> {''.yaml'', ''.yml''}
         \<and> file_name d = path_name (rel_parts e)
         \<and> filepath d = path_str (root t) (rel_parts e))"
proof (intro conjI impI ballI)
  assume "length (rel_parts e) < 2"
  then show "scan_file fmt r ld st e = st"
    by (simp add: scan_file_def document_descriptor_shallow)
next
  have "\<And>s x. \<not> 2 \<le> length (rel_parts x) \<Longrightarrow> scan_file fmt (root t) (contents t) s x = s"
    by (simp add: scan_file_def document_descriptor_shallow)
  from foldl_filter_skip [of "\<lambda>e. 2 \<le> length (rel_parts e)"
      "scan_file fmt (root t) (contents t)", OF this]
  show "extract_devices_from_yaml fmt t
       = extract_devices_from_yaml fmt
           (t\<lparr>entries := filter (\<lambda>e. 2 \<le> length (rel_parts e)) (entries t)\<rparr>)"
    by (simp add: extract_devices_from_yaml_def)
next
  fix d
  assume "d \<in> set (extract_devices_from_yaml fmt t)"
  with set_keep_first [of "device_key fmt" "[]" "discovered t"]
  have "d \<in> set (discovered t)"
    by (auto simp: extract_keep_first)
  then obtain e where e: "e \<in> set (entries t)"
    and d: "document_descriptor (root t) (contents t) e = Some d"
    by (auto simp: discovered_def set_map_filter_iff split: if_splits)
  from document_descriptor_Some [OF d] e
  show "\<exists>e \<in> set (entries t).
         is_file e \<and> 2 \<le> length (rel_parts e)
         \<and> lower (suffix (path_name (rel_parts e))) \<in> {''.yaml'', ''.yml''}
         \<and> file_name d = path_name (rel_parts e)
         \<and> filepath d = path_str (root t) (rel_parts e)"
    by blast
qed

theorem top_level_files_never_contribute_witness:
  "length (rel_parts \<lparr>rel_parts = [''sw1.yaml''], is_file = True\<rparr>) < 2
   \<and> scan_file str_of (root sw1_tree) (contents sw1_tree)
         \<lparr>device_list = [], seen_devices = []\<rparr> \<lparr>rel_parts = [''sw1.yaml''], is_file = True\<rparr>
       = \<lparr>device_list = [], seen_devices = []\<rparr>
   \<and> document_descriptor (root sw1_tree) (contents sw1_tree)
         \<lparr>rel_parts = [''leaf'', ''sw1.yaml''], is_file = True\<rparr>
       = Some \<lparr>file_name = ''sw1.yaml'',
               filepath = ''/repo/network_configs/node/leaf/sw1.yaml'',
               ip = YStr ''10.0.0.1'', hostname = YStr ''sw1''\<rparr>
   \<and> map filepath (extract_devices_from_yaml str_of sw1_tree)
       = [''/repo/network_configs/node/leaf/sw1.yaml'']"
proof -
  have top: "length (rel_parts \<lparr>rel_parts = [''sw1.yaml''], is_file = True\<rparr>) < 2"
    by simp
  have nested: "document_descriptor (root sw1_tree) (contents sw1_tree)
         \<lparr>rel_parts = [''leaf'', ''sw1.yaml''], is_file = True\<rparr>
       = Some \<lparr>file_name = ''sw1.yaml'',
               filepath = ''/repo/network_configs/node/leaf/sw1.yaml'',
               ip = YStr ''10.0.0.1'', hostname = YStr ''sw1''\<rparr>"
    by code_simp
  have found: "map filepath (extract_devices_from_yaml str_of sw1_tree)
       = [''/repo/network_configs/node/leaf/sw1.yaml'']"
    by code_simp
  from top_level_files_never_contribute
      [of "\<lparr>rel_parts = [''sw1.yaml''], is_file = True\<rparr>" str_of "root sw1_tree"
         "contents sw1_tree" "\<lparr>device_list = [], seen_devices = []\<rparr>"] top
  have "scan_file str_of (root sw1_tree) (contents sw1_tree)
         \<lparr>device_list = [], seen_devices = []\<rparr> \<lparr>rel_parts = [''sw1.yaml''], is_file = True\<rparr>
       = \<lparr>device_list = [], seen_devices = []\<rparr>"
    by blast
  with top nested found show ?thesis by blast
qed

text \<open>
  C8, as the code has it: the identity key of a descriptor is
  \<open>hostname + "_" + address\<close>, and the device list holds no two descriptors with the
  same key; for every key, the descriptors with that key in the list are exactly the
  first discovered descriptor with that key, as it was discovered. So two documents that
  give the same hostname and address give the same key, and the list holds exactly one
  descriptor with that key; when no discovered document with another hostname or address
  has that key, the list holds exactly one descriptor with that hostname and address,
  the first one discovered.
\<close>

theorem duplicates_collapse_to_first:
  "device_key fmt d = fmt (hostname d) @ ''_'' @ fmt (ip d)
   \<and> ((\<forall>s. fmt (YStr s) = s) \<and> hostname d = YStr h \<and> ip d = YStr a \<longrightarrow>
        device_key fmt d = h @ ''_'' @ a)
   \<and> distinct (map (device_key fmt) (extract_devices_from_yaml fmt t))
   \<and> filter (\<lambda>d. device_key fmt d = k) (extract_devices_from_yaml fmt t)
       = (case find (\<lambda>d. device_key fmt d = k) (discovered t) of
            None \<Rightarrow> [] | Some d \<Rightarrow> [d])
   \<and> (d1 \<in> set (discovered t) \<and> d2 \<in> set (discovered t)
        \<and> hostname d1 = hostname d2 \<and> ip d1 = ip d2 \<longrightarrow>
          device_key fmt d1 = device_key fmt d2
          \<and> length (filter (\<lambda>d. device_key fmt d = device_key fmt d1)
                      (extract_devices_from_yaml fmt t)) = 1)
   \<and> (d1 \<in> set (discovered t)
        \<and> (\<forall>d \<in> set (discovered t). device_key fmt d = device_key fmt d1 \<longrightarrow>
               hostname d = hostname d1 \<and> ip d = ip d1) \<longrightarrow>
          filter (\<lambda>d. hostname d = hostname d1 \<and> ip d = ip d1)
              (extract_devices_from_yaml fmt t)
            = (case find (\<lambda>d. hostname d = hostname d1 \<and> ip d = ip d1) (discovered t) of
                 None \<Rightarrow> [] | Some d \<Rightarrow> [d])
          \<and> length (filter (\<lambda>d. hostname d = hostname d1 \<and> ip d = ip d1)
                      (extract_devices_from_yaml fmt t)) = 1)"
proof (intro conjI impI)
  show "device_key fmt d = fmt (hostname d) @ ''_'' @ fmt (ip d)"
    by (simp add: device_key_def)
  show "device_key fmt d = h @ ''_'' @ a"
    if "(\<forall>s. fmt (YStr s) = s) \<and> hostname d = YStr h \<and> ip d = YStr a"
    using that by (simp add: device_key_def)
  show "distinct (map (device_key fmt) (extract_devices_from_yaml fmt t))"
    by (simp add: extract_keep_first distinct_keep_first)
  show flt: "filter (\<lambda>d. device_key fmt d = k) (extract_devices_from_yaml fmt t)
       = (case find (\<lambda>d. device_key fmt d = k) (discovered t) of
            None \<Rightarrow> [] | Some d \<Rightarrow> [d])" for k
    by (simp add: extract_keep_first filter_keep_first)
  {
    assume a: "d1 \<in> set (discovered t) \<and> d2 \<in> set (discovered t)
          \<and> hostname d1 = hostname d2 \<and> ip d1 = ip d2"
    then show "device_key fmt d1 = device_key fmt d2"
      by (simp add: device_key_def)
    from a find_Some_of_member [of d1 "discovered t" "device_key fmt"]
    obtain d' where "find (\<lambda>x. device_key fmt x = device_key fmt d1) (discovered t) = Some d'"
      by blast
    with flt [of "device_key fmt d1"]
    show "length (filter (\<lambda>d. device_key fmt d = device_key fmt d1)
                        (extract_devices_from_yaml fmt t)) = 1"
      by simp
  }
  {
    assume b: "d1 \<in> set (discovered t)
        \<and> (\<forall>d \<in> set (discovered t). device_key fmt d = device_key fmt d1 \<longrightarrow>
               hostname d = hostname d1 \<and> ip d = ip d1)"
    have same: "(hostname d = hostname d1 \<and> ip d = ip d1)
                  = (device_key fmt d = device_key fmt d1)"
      if "d \<in> set (discovered t)" for d
      using that b by (auto simp: device_key_def)
    have sub: "set (extract_devices_from_yaml fmt t) \<subseteq> set (discovered t)"
      by (simp add: extract_keep_first set_keep_first)
    have f1: "filter (\<lambda>d. hostname d = hostname d1 \<and> ip d = ip d1)
                (extract_devices_from_yaml fmt t)
              = filter (\<lambda>d. device_key fmt d = device_key fmt d1)
                  (extract_devices_from_yaml fmt t)"
      using same sub by (intro filter_cong) auto
    have f2: "find (\<lambda>d. hostname d = hostname d1 \<and> ip d = ip d1) (discovered t)
              = find (\<lambda>d. device_key fmt d = device_key fmt d1) (discovered t)"
      using same by (intro find_cong) auto
    show eq: "filter (\<lambda>d. hostname d = hostname d1 \<and> ip d = ip d1)
              (extract_devices_from_yaml fmt t)
            = (case find (\<lambda>d. hostname d = hostname d1 \<and> ip d = ip d1) (discovered t) of
                 None \<Rightarrow> [] | Some d \<Rightarrow> [d])"
      unfolding f1 f2 by (rule flt)
    from b find_Some_of_member [of d1 "discovered t" "device_key fmt"]
    obtain d' where "find (\<lambda>x. device_key fmt x = device_key fmt d1) (discovered t) = Some d'"
      by blast
    with eq f2
    show "length (filter (\<lambda>d. hostname d = hostname d1 \<and> ip d = ip d1)
                      (extract_devices_from_yaml fmt t)) = 1"
      by simp
  }
qed

theorem duplicates_collapse_to_first_witness:
  "map filepath (discovered sw1_tree)
     = [''/repo/network_configs/node/leaf/sw1.yaml'',
        ''/repo/network_configs/node/leaf/sw1_copy.yml'']
   \<and> map hostname (discovered sw1_tree) = [YStr ''sw1'', YStr ''sw1'']
   \<and> map ip (discovered sw1_tree) = [YStr ''10.0.0.1'', YStr ''10.0.0.1'']
   \<and> device_key str_of (discovered sw1_tree ! 0) = ''sw1'' @ ''_'' @ ''10.0.0.1''
   \<and> device_key str_of (discovered sw1_tree ! 0) = device_key str_of (discovered sw1_tree ! 1)
   \<and> length (filter (\<lambda>d. device_key str_of d = device_key str_of (discovered sw1_tree ! 0))
               (extract_devices_from_yaml str_of sw1_tree)) = 1
   \<and> length (filter (\<lambda>d. hostname d = hostname (discovered sw1_tree ! 0)
                          \<and> ip d = ip (discovered sw1_tree ! 0))
               (extract_devices_from_yaml str_of sw1_tree)) = 1
   \<and> map filepath (extract_devices_from_yaml str_of sw1_tree)
       = [''/repo/network_configs/node/leaf/sw1.yaml'']"
proof -
  have paths: "map filepath (discovered sw1_tree)
     = [''/repo/network_configs/node/leaf/sw1.yaml'',
        ''/repo/network_configs/node/leaf/sw1_copy.yml'']"
    by code_simp
  have names: "map hostname (discovered sw1_tree) = [YStr ''sw1'', YStr ''sw1'']"
    by code_simp
  have addrs: "map ip (discovered sw1_tree) = [YStr ''10.0.0.1'', YStr ''10.0.0.1'']"
    by code_simp
  have kept: "map filepath (extract_devices_from_yaml str_of sw1_tree)
       = [''/repo/network_configs/node/leaf/sw1.yaml'']"
    by code_simp
  have "length (map filepath (discovered sw1_tree)) = 2"
    by (simp only: paths) simp
  then have len: "length (discovered sw1_tree) = 2"
    by simp
  have mem: "discovered sw1_tree ! 0 \<in> set (discovered sw1_tree)
             \<and> discovered sw1_tree ! 1 \<in> set (discovered sw1_tree)"
    using len by simp
  have same: "hostname (discovered sw1_tree ! 0) = hostname (discovered sw1_tree ! 1)
              \<and> ip (discovered sw1_tree ! 0) = ip (discovered sw1_tree ! 1)"
    by code_simp
  have str: "(\<forall>s. str_of (YStr s) = s)
             \<and> hostname (discovered sw1_tree ! 0) = YStr ''sw1''
             \<and> ip (discovered sw1_tree ! 0) = YStr ''10.0.0.1''"
  proof (intro conjI allI)
    show "str_of (YStr s) = s" for s
      by (simp add: str_of_def)
    show "hostname (discovered sw1_tree ! 0) = YStr ''sw1''"
      by code_simp
    show "ip (discovered sw1_tree ! 0) = YStr ''10.0.0.1''"
      by code_simp
  qed
  have alone: "\<forall>d \<in> set (discovered sw1_tree).
                 device_key str_of d = device_key str_of (discovered sw1_tree ! 0) \<longrightarrow>
                   hostname d = hostname (discovered sw1_tree ! 0)
                   \<and> ip d = ip (discovered sw1_tree ! 0)"
    by code_simp
  note inst = duplicates_collapse_to_first
      [of str_of "discovered sw1_tree ! 0" "''sw1''" "''10.0.0.1''" sw1_tree "''sw1_10.0.0.1''"
          "discovered sw1_tree ! 0" "discovered sw1_tree ! 1"]
  from inst str
  have key: "device_key str_of (discovered sw1_tree ! 0) = ''sw1'' @ ''_'' @ ''10.0.0.1''"
    by blast
  from inst mem same
  have one: "device_key str_of (discovered sw1_tree ! 0) = device_key str_of (discovered sw1_tree ! 1)
        \<and> length (filter (\<lambda>d. device_key str_of d = device_key str_of (discovered sw1_tree ! 0))
                    (extract_devices_from_yaml str_of sw1_tree)) = 1"
    by blast
  from inst mem alone
  have pair: "length (filter (\<lambda>d. hostname d = hostname (discovered sw1_tree ! 0)
                          \<and> ip d = ip (discovered sw1_tree ! 0))
               (extract_devices_from_yaml str_of sw1_tree)) = 1"
    by blast
  from paths names addrs key one pair kept show ?thesis by blast
qed

text \<open>
  C8 as the specification states it fails where two different pairs of hostname and
  address have the same key: \<open>leaf_1\<close> with \<open>10.0.0.1\<close>, discovered first, and
  \<open>leaf\<close> with \<open>1_10.0.0.1\<close>, discovered twice after it, all have the key
  \<open>leaf_1_10.0.0.1\<close>. Both documents of the pair are dropped, and the device list holds
  no descriptor with their hostname and address.
\<close>

theorem colliding_keys_drop_pair_counterexample:
  "map (\<lambda>d. (hostname d, ip d)) (discovered collision_tree)
     = [(YStr ''leaf_1'', YStr ''10.0.0.1''),
        (YStr ''leaf'', YStr ''1_10.0.0.1''),
        (YStr ''leaf'', YStr ''1_10.0.0.1'')]
   \<and> map (device_key str_of) (discovered collision_tree)
       = [''leaf_1_10.0.0.1'', ''leaf_1_10.0.0.1'', ''leaf_1_10.0.0.1'']
   \<and> map filepath (extract_devices_from_yaml str_of collision_tree)
       = [''/repo/network_configs/node/a/leaf_1.yaml'']
   \<and> filter (\<lambda>d. hostname d = YStr ''leaf'' \<and> ip d = YStr ''1_10.0.0.1'')
         (extract_devices_from_yaml str_of collision_tree) = []"
  by code_simp

section \<open>The search for the identity fields\<close>

lemma find_device_info_is_fold:
  "find_device_info doc info = Inr info' \<Longrightarrow> info' = foldl record_field info (occurrences doc)"
  "find_in_items kvs info = Inr info' \<Longrightarrow> info' = foldl record_field info (occurrences_items kvs)"
  "find_in_list xs info = Inr info' \<Longrightarrow> info' = foldl record_field info (occurrences_list xs)"
proof (induction doc info and kvs info and xs info arbitrary: info' and info' and info'
    rule: find_device_info_find_in_items_find_in_list.induct)
  case (8 key val rest info)
  show ?case
  proof (cases key)
    case (YStr k)
    show ?thesis
    proof (cases "lower k = ''ip address'' \<or> lower k = ''ip_address''")
      case True
      with YStr "8.prems" "8.IH"(1) [of k info'] show ?thesis
        by (auto simp: record_field_def)
    next
      case notip: False
      show ?thesis
      proof (cases "lower k = ''hostname''")
        case True
        with YStr notip "8.prems" "8.IH"(2) [of k info'] show ?thesis
          by (auto simp: record_field_def)
      next
        case nothost: False
        show ?thesis
        proof (cases "case val of YMap _ \<Rightarrow> True | YSeq _ \<Rightarrow> True | _ \<Rightarrow> False")
          case True
          with YStr notip nothost "8.prems"
          obtain mid where mid: "find_device_info val info = Inr mid"
            and rest: "find_in_items rest mid = Inr info'"
            by (auto split: sum.splits)
          from "8.IH"(3) [OF YStr notip nothost True mid]
          have "mid = foldl record_field info (occurrences val)" .
          moreover from "8.IH"(4) [OF YStr notip nothost True mid rest]
          have "info' = foldl record_field mid (occurrences_items rest)" .
          ultimately show ?thesis
            using YStr notip nothost by simp
        next
          case False
          then have "occurrences val = []"
            by (cases val) auto
          with False YStr notip nothost "8.prems" "8.IH"(5) [of k info'] show ?thesis
            by auto
        qed
      qed
    qed
  qed (use "8.prems" in auto)
next
  case (10 item rest info)
  from "10.prems" obtain mid where mid: "find_device_info item info = Inr mid"
    and rest: "find_in_list rest mid = Inr info'"
    by (auto split: sum.splits)
  from "10.IH"(1) [OF mid] "10.IH"(2) [OF mid rest] show ?case
    by simp
qed auto

lemma fold_record_field_ip:
  "found_ip (foldl record_field info occs)
     = (case map snd (filter (\<lambda>p. fst p = Address) occs) of
          [] \<Rightarrow> found_ip info | v # vs \<Rightarrow> Some (last (v # vs)))"
proof (induction occs arbitrary: info)
  case Nil
  show ?case by simp
next
  case (Cons p ps)
  have step: "found_ip (record_field info p)
                = (if fst p = Address then Some (snd p) else found_ip info)"
    by (cases "fst p") (simp_all add: record_field_def)
  show ?case
    by (auto simp: Cons.IH step split: list.splits)
qed

lemma fold_record_field_hostname:
  "found_hostname (foldl record_field info occs)
     = (case map snd (filter (\<lambda>p. fst p = Hostname) occs) of
          [] \<Rightarrow> found_hostname info | v # vs \<Rightarrow> Some (last (v # vs)))"
proof (induction occs arbitrary: info)
  case Nil
  show ?case by simp
next
  case (Cons p ps)
  have step: "found_hostname (record_field info p)
                = (if fst p = Hostname then Some (snd p) else found_hostname info)"
    by (cases "fst p") (simp_all add: record_field_def)
  show ?case
    by (auto simp: Cons.IH step split: list.splits)
qed

lemma lower_children [simp]:
  "lower ''children'' = ''children''"
  by (simp add: lower_def lower_char_def)

lemma find_device_info_nested:
  "find_device_info (nested n doc) info = find_device_info doc info"
  by (induction n) (auto split: sum.splits)

text \<open>
  C6, as the code has it: the search goes into mappings and sequences at any depth
  (but not into the value of a key that matched), keys match whatever the case of their
  letters, and when a document holds more than one key for a field the last one met in
  traversal order gives the value: each later occurrence replaces the value taken before.
\<close>

theorem identity_search_last_occurrence_wins:
  "(find_device_info doc info = Inr info' \<longrightarrow>
      found_ip info'
        = (if values_of Address doc = [] then found_ip info
           else Some (last (values_of Address doc)))
      \<and> found_hostname info'
        = (if values_of Hostname doc = [] then found_hostname info
           else Some (last (values_of Hostname doc))))
   \<and> (lower k = ''hostname'' \<longrightarrow>
        find_device_info (nested n (YMap [(YStr k, v)])) info
          = Inr (info\<lparr>found_hostname := Some v\<rparr>))
   \<and> (lower k = ''ip address'' \<or> lower k = ''ip_address'' \<longrightarrow>
        find_device_info (nested n (YMap [(YStr k, v)])) info
          = Inr (info\<lparr>found_ip := Some v\<rparr>))"
proof (intro conjI impI)
  assume "find_device_info doc info = Inr info'"
  from find_device_info_is_fold(1) [OF this]
  have fold: "info' = foldl record_field info (occurrences doc)" .
  show "found_ip info'
        = (if values_of Address doc = [] then found_ip info
           else Some (last (values_of Address doc)))"
    unfolding fold fold_record_field_ip values_of_def
    by (simp split: list.splits)
  show "found_hostname info'
        = (if values_of Hostname doc = [] then found_hostname info
           else Some (last (values_of Hostname doc)))"
    unfolding fold fold_record_field_hostname values_of_def
    by (simp split: list.splits)
next
  assume "lower k = ''hostname''"
  then show "find_device_info (nested n (YMap [(YStr k, v)])) info
          = Inr (info\<lparr>found_hostname := Some v\<rparr>)"
    by (simp add: find_device_info_nested)
next
  assume "lower k = ''ip address'' \<or> lower k = ''ip_address''"
  then show "find_device_info (nested n (YMap [(YStr k, v)])) info
          = Inr (info\<lparr>found_ip := Some v\<rparr>)"
    by (auto simp: find_device_info_nested)
qed

theorem identity_search_last_occurrence_wins_witness:
  "find_device_info two_names_doc \<lparr>found_ip = None, found_hostname = None\<rparr>
     = Inr \<lparr>found_ip = Some (YStr ''10.0.0.1''), found_hostname = Some (YStr ''second'')\<rparr>
   \<and> values_of Hostname two_names_doc = [YStr ''first'', YStr ''second'']
   \<and> found_hostname \<lparr>found_ip = Some (YStr ''10.0.0.1''), found_hostname = Some (YStr ''second'')\<rparr>
       = Some (last (values_of Hostname two_names_doc))
   \<and> lower ''HostName'' = ''hostname''
   \<and> find_device_info (nested 3 (YMap [(YStr ''HostName'', YStr ''sw1'')]))
         \<lparr>found_ip = None, found_hostname = None\<rparr>
       = Inr \<lparr>found_ip = None, found_hostname = Some (YStr ''sw1'')\<rparr>"
proof -
  have run: "find_device_info two_names_doc \<lparr>found_ip = None, found_hostname = None\<rparr>
     = Inr \<lparr>found_ip = Some (YStr ''10.0.0.1''), found_hostname = Some (YStr ''second'')\<rparr>"
    by code_simp
  have vals: "values_of Hostname two_names_doc = [YStr ''first'', YStr ''second'']"
    by code_simp
  have low: "lower ''HostName'' = ''hostname''"
    by code_simp
  note inst = identity_search_last_occurrence_wins
      [of two_names_doc "\<lparr>found_ip = None, found_hostname = None\<rparr>"
          "\<lparr>found_ip = Some (YStr ''10.0.0.1''), found_hostname = Some (YStr ''second'')\<rparr>"
          "''HostName''" 3 "YStr ''sw1''"]
  from inst run vals
  have last: "found_hostname
                \<lparr>found_ip = Some (YStr ''10.0.0.1''), found_hostname = Some (YStr ''second'')\<rparr>
              = Some (last (values_of Hostname two_names_doc))"
    by simp
  from inst low
  have deep: "find_device_info (nested 3 (YMap [(YStr ''HostName'', YStr ''sw1'')]))
         \<lparr>found_ip = None, found_hostname = None\<rparr>
       = Inr \<lparr>found_ip = None, found_hostname = Some (YStr ''sw1'')\<rparr>"
    by simp
  from run vals last low deep show ?thesis by blast
qed

text \<open>
  C6 as the specification states it, the first occurrence wins, fails on a document that
  names its host twice: the search meets \<open>first\<close> and then \<open>second\<close>, and the host name
  found is \<open>second\<close>.
\<close>

theorem first_occurrence_wins_counterexample:
  "values_of Hostname two_names_doc = [YStr ''first'', YStr ''second'']
   \<and> find_device_info two_names_doc \<lparr>found_ip = None, found_hostname = None\<rparr>
       = Inr \<lparr>found_ip = Some (YStr ''10.0.0.1''), found_hostname = Some (YStr ''second'')\<rparr>
   \<and> Some (YStr ''second'') \<noteq> Some (hd (values_of Hostname two_names_doc))"
  by code_simp

section \<open>The status parser\<close>

lemma dropWhile_none:
  "\<forall>c \<in> set t. \<not> P c \<Longrightarrow> dropWhile P t = t"
  by (cases t) auto

lemma strip_no_space:
  "\<forall>c \<in> set t. \<not> is_space c \<Longrightarrow> strip t = t"
  by (simp add: strip_def dropWhile_none)

lemma split_ws_from_no_space:
  "t \<in> set (split_ws_from cur s) \<Longrightarrow> \<forall>c \<in> set cur. \<not> is_space c \<Longrightarrow>
     \<forall>c \<in> set t. \<not> is_space c"
proof (induction s arbitrary: cur)
  case Nil
  then show ?case by (auto split: if_splits)
next
  case (Cons a s)
  show ?case
  proof (cases "is_space a")
    case True
    with Cons.prems Cons.IH [of "[]"] show ?thesis
      by (auto split: if_splits)
  next
    case False
    with Cons.prems Cons.IH [of "a # cur"] show ?thesis
      by auto
  qed
qed

lemma strip_token:
  "t \<in> set (drop n (split_ws s)) \<Longrightarrow> strip t = t"
  using split_ws_from_no_space [of t "[]" s]
  by (auto simp: split_ws_def strip_no_space dest: in_set_dropD)

lemma token_scan_find:
  "\<forall>t \<in> set ts. strip t = t \<Longrightarrow>
     token_scan ts
       = (case find (\<lambda>t. lower t \<in> set status_keywords) ts of
            None \<Rightarrow> ''unknown''
          | Some t \<Rightarrow> if lower t = ''not'' then ''notconnect'' else lower t)"
  by (induction ts) (simp_all add: Let_def)

lemma keyword_not_unknown:
  "x \<in> set status_keywords \<Longrightarrow> x \<noteq> ''unknown''"
  by (auto simp: status_keywords_def)

lemma keyword_in_vocabulary:
  "x \<in> set status_keywords \<Longrightarrow> x \<noteq> ''not'' \<Longrightarrow> x \<in> set status_vocabulary"
  by (auto simp: status_keywords_def status_vocabulary_def)

lemma line_status_scan:
  assumes "find (\<lambda>t. lower t \<in> set status_keywords) (drop 1 (split_ws s)) = Some t"
  shows "line_status s = (if lower t = ''not'' then ''notconnect'' else lower t)"
proof -
  from assms have kw: "lower t \<in> set status_keywords"
    by (auto simp: find_Some_iff)
  have scan: "token_scan (drop 1 (split_ws s))
                = (if lower t = ''not'' then ''notconnect'' else lower t)"
    using token_scan_find [of "drop 1 (split_ws s)"] strip_token [of _ 1 s] assms
    by simp
  from kw keyword_not_unknown [OF kw]
  have ne: "((if lower t = ''not'' then ''notconnect'' else lower t) = ''unknown'') = False"
    by simp
  show ?thesis
    unfolding line_status_def Let_def scan by (simp only: ne if_False)
qed

lemma line_status_fallback:
  assumes "find (\<lambda>t. lower t \<in> set status_keywords) (drop 1 (split_ws s)) = None"
  shows "line_status s
           = (case keyword_search (lower s) of
                Some st \<Rightarrow> st
              | None \<Rightarrow> column_status s ''unknown'')"
proof -
  have scan: "token_scan (drop 1 (split_ws s)) = ''unknown''"
    using token_scan_find [of "drop 1 (split_ws s)"] strip_token [of _ 1 s] assms
    by simp
  show ?thesis
    unfolding line_status_def Let_def scan
    by (simp add: keyword_search_def keyword_patterns_def)
qed

lemma keyword_search_vocabulary:
  "keyword_search low = Some st \<Longrightarrow> st \<in> set status_vocabulary"
  by (auto simp: keyword_search_def keyword_patterns_def status_vocabulary_def
      split: if_splits)

lemma line_status_cases:
  "line_status s \<in> set status_vocabulary
   \<or> (find (\<lambda>t. lower t \<in> set status_keywords) (drop 1 (split_ws s)) = None
      \<and> keyword_search (lower s) = None
      \<and> line_status s = column_status s ''unknown'')"
proof (cases "find (\<lambda>t. lower t \<in> set status_keywords) (drop 1 (split_ws s))")
  case None
  show ?thesis
  proof (cases "keyword_search (lower s)")
    case inner: None
    with None line_status_fallback [OF None] show ?thesis by simp
  next
    case (Some st)
    with line_status_fallback [OF None] keyword_search_vocabulary [OF Some] show ?thesis
      by simp
  qed
next
  case (Some t)
  then have kw: "lower t \<in> set status_keywords"
    by (auto simp: find_Some_iff)
  have "''notconnect'' \<in> set status_vocabulary"
    by (simp add: status_vocabulary_def)
  with line_status_scan [OF Some] keyword_in_vocabulary [OF kw] show ?thesis
    by auto
qed

lemma parse_lines_invariant:
  assumes "\<And>k st. m k = Some st \<Longrightarrow> Q k st"
    and "\<And>line k. line \<in> set ls \<Longrightarrow> match_interface (lstrip line) = Some k \<Longrightarrow>
           Q k (line_status (lstrip line))"
    and "foldl parse_line m ls k = Some st"
  shows "Q k st"
  using assms
proof (induction ls arbitrary: m)
  case Nil
  then show ?case by simp
next
  case (Cons line ls)
  have "Q k' st'" if "parse_line m line k' = Some st'" for k' st'
    using that Cons.prems(1) Cons.prems(2) [of line]
    by (auto simp: parse_line_def Let_def split: option.splits if_splits)
  from Cons.IH [of "parse_line m line", OF this] Cons.prems(2,3) show ?case
    by simp
qed

lemma split_char_no_sep:
  "sep \<notin> set s \<Longrightarrow> split_char sep cur s = [rev cur @ s]"
  by (induction s arbitrary: cur) auto

text \<open>The map after a run of lines: under every key, the status of the last line of that key.\<close>

lemma parse_lines_last:
  "foldl parse_line m ls k
     = (case find (\<lambda>line. match_interface (lstrip line) = Some k) (rev ls) of
          None \<Rightarrow> m k
        | Some line \<Rightarrow> Some (line_status (lstrip line)))"
proof (induction ls rule: rev_induct)
  case Nil
  show ?case by simp
next
  case (snoc line ls)
  then show ?case
    by (auto simp: parse_line_def Let_def split: option.splits)
qed

text \<open>
  C4: the status that \<^verbatim>\<open>parse_interface_status_output\<close> returns for an interface is the
  status of the last line of the output that, after stripping leading whitespace, begins
  with that interface token (and there is none when no line does); in particular an
  output of one such line is recorded under its token with the status of the line. In the
  status of a line, the first token after the first whose lower-cased value is a status
  keyword gives the status, \<open>not\<close> being written \<open>notconnect\<close>; the keyword search over
  the whole line, in the order err-disabled, disabled, notconnect, suspended, connected,
  is used only when no token is a keyword (and the column rule only when the search finds
  nothing). The line \<open>Eth1/1   Server-Uplink   connected   1   full   1000   fiber\<close>
  gets \<open>connected\<close> for \<open>Eth1/1\<close> from its token \<open>connected\<close>.
\<close>

theorem token_scan_before_keyword_search:
  "parse_interface_status_output output interface
     = (case find (\<lambda>line. match_interface (lstrip line) = Some interface)
               (rev (split_char CHR 0x0A [] output)) of
          None \<Rightarrow> None
        | Some line \<Rightarrow> Some (line_status (lstrip line)))
   \<and> (CHR 0x0A \<notin> set line \<and> match_interface (lstrip line) = Some interface \<longrightarrow>
        parse_interface_status_output line interface = Some (line_status (lstrip line)))
   \<and> (match_interface (lstrip line) = Some interface \<longrightarrow>
        parse_line m line = m(interface \<mapsto> line_status (lstrip line)))
   \<and> (find (\<lambda>t. lower t \<in> set status_keywords) (drop 1 (split_ws s)) = Some t \<longrightarrow>
        line_status s = (if lower t = ''not'' then ''notconnect'' else lower t))
   \<and> (find (\<lambda>t. lower t \<in> set status_keywords) (drop 1 (split_ws s)) = None \<longrightarrow>
        line_status s
          = (case keyword_search (lower s) of
               Some st \<Rightarrow> st
             | None \<Rightarrow> column_status s ''unknown''))
   \<and> map fst keyword_patterns
       = [''err-disabled'', ''disabled'', ''notconnect'', ''suspended'', ''connected'']
   \<and> find (\<lambda>t. lower t \<in> set status_keywords) (drop 1 (split_ws uplink_line))
       = Some ''connected''
   \<and> parse_interface_status_output uplink_line ''Eth1/1'' = Some ''connected''"
proof (intro conjI impI)
  show all: "parse_interface_status_output raw interface
     = (case find (\<lambda>line. match_interface (lstrip line) = Some interface)
               (rev (split_char CHR 0x0A [] raw)) of
          None \<Rightarrow> None
        | Some line \<Rightarrow> Some (line_status (lstrip line)))" for raw
    by (simp add: parse_interface_status_output_def parse_lines_last)
  show "parse_interface_status_output line interface = Some (line_status (lstrip line))"
    if "CHR 0x0A \<notin> set line \<and> match_interface (lstrip line) = Some interface"
    using that by (simp add: all split_char_no_sep)
next
  assume "match_interface (lstrip line) = Some interface"
  then show "parse_line m line = m(interface \<mapsto> line_status (lstrip line))"
    by (simp add: parse_line_def Let_def)
next
  assume "find (\<lambda>t. lower t \<in> set status_keywords) (drop 1 (split_ws s)) = Some t"
  then show "line_status s = (if lower t = ''not'' then ''notconnect'' else lower t)"
    by (rule line_status_scan)
next
  assume "find (\<lambda>t. lower t \<in> set status_keywords) (drop 1 (split_ws s)) = None"
  then show "line_status s
          = (case keyword_search (lower s) of
               Some st \<Rightarrow> st
             | None \<Rightarrow> column_status s ''unknown'')"
    by (rule line_status_fallback)
next
  show "map fst keyword_patterns
       = [''err-disabled'', ''disabled'', ''notconnect'', ''suspended'', ''connected'']"
    by (simp add: keyword_patterns_def)
  show "find (\<lambda>t. lower t \<in> set status_keywords) (drop 1 (split_ws uplink_line))
       = Some ''connected''"
    by code_simp
  show "parse_interface_status_output uplink_line ''Eth1/1'' = Some ''connected''"
    by code_simp
qed

theorem token_scan_before_keyword_search_witness:
  "match_interface (lstrip uplink_line) = Some ''Eth1/1''
   \<and> parse_line Map.empty uplink_line = Map.empty(''Eth1/1'' \<mapsto> line_status (lstrip uplink_line))
   \<and> find (\<lambda>t. lower t \<in> set status_keywords) (drop 1 (split_ws (lstrip uplink_line)))
       = Some ''connected''
   \<and> line_status (lstrip uplink_line) = ''connected''
   \<and> find (\<lambda>t. lower t \<in> set status_keywords) (drop 1 (split_ws bracket_line)) = None
   \<and> keyword_search (lower bracket_line) = Some ''disabled''
   \<and> line_status bracket_line = ''disabled''
   \<and> CHR 0x0A \<notin> set bracket_line
   \<and> match_interface (lstrip bracket_line) = Some ''Eth1/2''
   \<and> parse_interface_status_output bracket_line ''Eth1/2'' = Some ''disabled''
   \<and> parse_interface_status_output (uplink_line @ [CHR 0x0A] @ bracket_line) ''Eth1/2''
       = Some ''disabled''
   \<and> parse_interface_status_output (uplink_line @ [CHR 0x0A] @ bracket_line) ''Eth1/3'' = None"
proof -
  let ?two = "uplink_line @ [CHR 0x0A] @ bracket_line"
  have m: "match_interface (lstrip uplink_line) = Some ''Eth1/1''"
    by code_simp
  have f: "find (\<lambda>t. lower t \<in> set status_keywords) (drop 1 (split_ws (lstrip uplink_line)))
             = Some ''connected''"
    by code_simp
  have l: "lower ''connected'' = ''connected''"
    by code_simp
  have n: "find (\<lambda>t. lower t \<in> set status_keywords) (drop 1 (split_ws bracket_line)) = None"
    by code_simp
  have k: "keyword_search (lower bracket_line) = Some ''disabled''"
    by code_simp
  have nl: "CHR 0x0A \<notin> set bracket_line"
    by code_simp
  have ls: "lstrip bracket_line = bracket_line"
    by code_simp
  have mb: "match_interface (lstrip bracket_line) = Some ''Eth1/2''"
    by code_simp
  have last2: "find (\<lambda>line. match_interface (lstrip line) = Some ''Eth1/2'')
                 (rev (split_char CHR 0x0A [] ?two)) = Some bracket_line"
    by code_simp
  have last3: "find (\<lambda>line. match_interface (lstrip line) = Some ''Eth1/3'')
                 (rev (split_char CHR 0x0A [] ?two)) = None"
    by code_simp
  note up = token_scan_before_keyword_search
      [of ?two "''Eth1/2''" uplink_line Map.empty "lstrip uplink_line" "''connected''"]
  note br = token_scan_before_keyword_search
      [of ?two "''Eth1/2''" bracket_line Map.empty bracket_line "''connected''"]
  note no = token_scan_before_keyword_search
      [of ?two "''Eth1/3''" bracket_line Map.empty bracket_line "''connected''"]
  from token_scan_before_keyword_search
      [of ?two "''Eth1/1''" uplink_line Map.empty "lstrip uplink_line" "''connected''"] m
  have p: "parse_line Map.empty uplink_line
             = Map.empty(''Eth1/1'' \<mapsto> line_status (lstrip uplink_line))"
    by blast
  from up f l have s: "line_status (lstrip uplink_line) = ''connected''"
    by simp
  from br n k have b: "line_status bracket_line = ''disabled''"
    by simp
  from br nl mb have "parse_interface_status_output bracket_line ''Eth1/2''
                        = Some (line_status (lstrip bracket_line))"
    by blast
  with ls b have one: "parse_interface_status_output bracket_line ''Eth1/2'' = Some ''disabled''"
    by simp
  from br have "parse_interface_status_output ?two ''Eth1/2''
     = (case find (\<lambda>line. match_interface (lstrip line) = Some ''Eth1/2'')
               (rev (split_char CHR 0x0A [] ?two)) of
          None \<Rightarrow> None
        | Some line \<Rightarrow> Some (line_status (lstrip line)))"
    by blast
  with last2 ls b have two: "parse_interface_status_output ?two ''Eth1/2'' = Some ''disabled''"
    by simp
  from no have "parse_interface_status_output ?two ''Eth1/3''
     = (case find (\<lambda>line. match_interface (lstrip line) = Some ''Eth1/3'')
               (rev (split_char CHR 0x0A [] ?two)) of
          None \<Rightarrow> None
        | Some line \<Rightarrow> Some (line_status (lstrip line)))"
    by blast
  with last3 have three: "parse_interface_status_output ?two ''Eth1/3'' = None"
    by simp
  from m p f s n k b nl mb one two three show ?thesis by blast
qed

text \<open>
  C5, as the code has it: every status value in the map that
  \<^verbatim>\<open>parse_interface_status_output\<close> returns is one of connected, notconnect, disabled,
  err-disabled, suspended, or it is what the column rule gives on a line of that interface
  on which neither the token scan nor the keyword search found a keyword: the third
  column of the line (columns being separated by two or more whitespace characters), or
  else its third token, stripped and lower-cased but otherwise as written, or
  \<open>unknown\<close> when the line has neither.
\<close>

theorem status_values_of_parser:
  "parse_interface_status_output output interface = Some st \<Longrightarrow>
     st \<in> set status_vocabulary
     \<or> (\<exists>line \<in> set (split_char CHR 0x0A [] output).
           match_interface (lstrip line) = Some interface
           \<and> find (\<lambda>t. lower t \<in> set status_keywords) (drop 1 (split_ws (lstrip line))) = None
           \<and> keyword_search (lower (lstrip line)) = None
           \<and> st = column_status (lstrip line) ''unknown'')"
proof (rule parse_lines_invariant
    [where m = Map.empty and ls = "split_char CHR 0x0A [] output" and k = interface and st = st])
  show "foldl parse_line Map.empty (split_char CHR 0x0A [] output) interface = Some st"
    if "parse_interface_status_output output interface = Some st"
    using that by (simp add: parse_interface_status_output_def)
next
  fix line k
  assume "line \<in> set (split_char CHR 0x0A [] output)"
    and "match_interface (lstrip line) = Some k"
  with line_status_cases [of "lstrip line"]
  show "line_status (lstrip line) \<in> set status_vocabulary
     \<or> (\<exists>line' \<in> set (split_char CHR 0x0A [] output).
           match_interface (lstrip line') = Some k
           \<and> find (\<lambda>t. lower t \<in> set status_keywords) (drop 1 (split_ws (lstrip line'))) = None
           \<and> keyword_search (lower (lstrip line')) = None
           \<and> line_status (lstrip line) = column_status (lstrip line') ''unknown'')"
    by blast
qed simp_all

theorem status_values_of_parser_witness:
  "parse_interface_status_output up_line ''Eth1/1'' = Some ''up''
   \<and> (''up'' \<in> set status_vocabulary
      \<or> (\<exists>line \<in> set (split_char CHR 0x0A [] up_line).
            match_interface (lstrip line) = Some ''Eth1/1''
            \<and> find (\<lambda>t. lower t \<in> set status_keywords) (drop 1 (split_ws (lstrip line))) = None
            \<and> keyword_search (lower (lstrip line)) = None
            \<and> ''up'' = column_status (lstrip line) ''unknown''))
   \<and> column_status (lstrip up_line) ''unknown'' = ''up''"
proof -
  have p: "parse_interface_status_output up_line ''Eth1/1'' = Some ''up''"
    by code_simp
  have c: "column_status (lstrip up_line) ''unknown'' = ''up''"
    by code_simp
  from status_values_of_parser [OF p] p c show ?thesis by blast
qed

text \<open>
  C5 as the specification states it fails on a line whose third column is no status
  word: the map holds \<open>up\<close>, which is none of the five status words and not
  \<open>unknown\<close>.
\<close>

theorem status_outside_vocabulary_counterexample:
  "parse_interface_status_output up_line ''Eth1/1'' = Some ''up''
   \<and> ''up'' \<notin> set (''unknown'' # status_vocabulary)"
  by code_simp

end
